theory Spec2Isabelle
  imports Complex_Main "HOL-Library.Word" "HOL-Library.Log_Nat"
begin

unbundle bit_operations_syntax

section \<open>The LCD1602 driver\<close>

text \<open>
  The class \<^verbatim>\<open>LCD1602\<close> of \<^verbatim>\<open>weighing_machine.py\<close> talks to the display through
  \<^verbatim>\<open>self.bus.write_byte(self.address, v)\<close> and
  \<^verbatim>\<open>time.sleep(t)\<close>. Both are effects on the outside world; the model records them, in
  program order, in a trace that is part of the driver's state. A bus write is logged with the
  peripheral address and the Python integer that was passed; a sleep is logged with the
  requested duration in microseconds (\<^verbatim>\<open>0.0001\<close> s is 100, \<^verbatim>\<open>0.002\<close> s is 2000, and so on).
  The bus library (smbus2) is not part of the repository: a write is taken to succeed.
  Python integers are unbounded, so bytes and arguments are \<^typ>\<open>int\<close>.
\<close>

datatype event = Write int int | Sleep nat

datatype error = IndexError | ZeroDivisionError

record lcd =
  address :: int
  bus :: int
  backlight :: int
  trace :: "event list"

subsection \<open>Configuration and class constants\<close>

definition LCD_I2C_ADDRESS :: int where "LCD_I2C_ADDRESS = 0x27"
definition LCD_I2C_BUS :: int where "LCD_I2C_BUS = 1"

definition LCD_CLEAR :: int where "LCD_CLEAR = 0x01"
definition LCD_HOME :: int where "LCD_HOME = 0x02"
definition LCD_ENTRY_MODE :: int where "LCD_ENTRY_MODE = 0x04"
definition LCD_DISPLAY_CONTROL :: int where "LCD_DISPLAY_CONTROL = 0x08"
definition LCD_FUNCTION_SET :: int where "LCD_FUNCTION_SET = 0x20"
definition LCD_SET_DDRAM :: int where "LCD_SET_DDRAM = 0x80"
definition LCD_DISPLAY_ON :: int where "LCD_DISPLAY_ON = 0x04"
definition LCD_CURSOR_OFF :: int where "LCD_CURSOR_OFF = 0x00"
definition LCD_BLINK_OFF :: int where "LCD_BLINK_OFF = 0x00"
definition LCD_2LINE :: int where "LCD_2LINE = 0x08"
definition LCD_5x8DOTS :: int where "LCD_5x8DOTS = 0x00"
definition LCD_BACKLIGHT :: int where "LCD_BACKLIGHT = 0x08"
definition ENABLE :: int where "ENABLE = 0x04"

subsection \<open>The two effects\<close>

definition write_byte_bus :: "lcd \<Rightarrow> int \<Rightarrow> lcd" where
  \<comment> \<open>\<^verbatim>\<open>self.bus.write_byte(self.address, v)\<close>\<close>
  "write_byte_bus s v = s\<lparr>trace := trace s @ [Write (address s) v]\<rparr>"

definition sleep :: "lcd \<Rightarrow> nat \<Rightarrow> lcd" where
  \<comment> \<open>\<^verbatim>\<open>time.sleep(t)\<close>, with \<open>t\<close> in microseconds\<close>
  "sleep s us = s\<lparr>trace := trace s @ [Sleep us]\<rparr>"

subsection \<open>Nibble and byte writes\<close>

definition pulse_enable :: "lcd \<Rightarrow> int \<Rightarrow> lcd" where
  "pulse_enable s data =
     (let s1 = write_byte_bus s (data OR ENABLE OR backlight s);
          s2 = sleep s1 100;
          s3 = write_byte_bus s2 ((data AND NOT ENABLE) OR backlight s2)
      in sleep s3 100)"

definition write_four_bits :: "lcd \<Rightarrow> int \<Rightarrow> lcd" where
  "write_four_bits s data =
     (let s1 = write_byte_bus s (data OR backlight s)
      in pulse_enable s1 data)"

definition high_bits :: "int \<Rightarrow> int \<Rightarrow> int" where
  \<comment> \<open>the local \<^verbatim>\<open>high_bits\<close> of \<^verbatim>\<open>_write_byte\<close>\<close>
  "high_bits data mode = mode OR (data AND 0xF0)"

definition low_bits :: "int \<Rightarrow> int \<Rightarrow> int" where
  \<comment> \<open>the local \<^verbatim>\<open>low_bits\<close> of \<^verbatim>\<open>_write_byte\<close>\<close>
  "low_bits data mode = mode OR (push_bit 4 data AND 0xF0)"

definition write_byte :: "lcd \<Rightarrow> int \<Rightarrow> int \<Rightarrow> lcd" where
  "write_byte s data mode =
     (let s1 = write_four_bits s (high_bits data mode)
      in write_four_bits s1 (low_bits data mode))"

subsection \<open>Public operations\<close>

definition clear :: "lcd \<Rightarrow> lcd" where
  "clear s = sleep (write_byte s LCD_CLEAR 0) 2000"

definition py_index :: "'a list \<Rightarrow> int \<Rightarrow> error + 'a" where
  \<comment> \<open>Python's \<^verbatim>\<open>xs[i]\<close>: the indices \<open>-len(xs)\<close> to \<open>-1\<close> count from the end, and
      an index outside \<open>-len(xs)\<close> to \<open>len(xs) - 1\<close> raises IndexError\<close>
  "py_index xs i =
     (if - int (length xs) \<le> i \<and> i < 0 then Inr (xs ! nat (int (length xs) + i))
      else if 0 \<le> i \<and> i < int (length xs) then Inr (xs ! nat i)
      else Inl IndexError)"

definition row_offsets :: "int list" where
  "row_offsets = [0x00, 0x40]"

definition set_cursor :: "lcd \<Rightarrow> int \<Rightarrow> int \<Rightarrow> error + lcd" where
  "set_cursor s col row =
     (case py_index row_offsets row of
        Inl e \<Rightarrow> Inl e
      | Inr off \<Rightarrow> Inr (write_byte s (LCD_SET_DDRAM OR (col + off)) 0))"

text \<open>
  A Python string is a sequence of Unicode code points and \<^verbatim>\<open>ord\<close> returns the code point
  as a non-negative integer. The text is modelled as the list of its code points, so that
  \<^verbatim>\<open>ord(char)\<close> is \<^term>\<open>int c\<close>.
\<close>

type_synonym pystr = "nat list"

fun print_chars :: "lcd \<Rightarrow> pystr \<Rightarrow> lcd" where
  \<comment> \<open>the loop \<^verbatim>\<open>for char in text: self._write_byte(ord(char), 1)\<close>\<close>
  "print_chars s [] = s"
| "print_chars s (c # cs) = print_chars (write_byte s (int c) 1) cs"

definition print :: "lcd \<Rightarrow> pystr \<Rightarrow> int \<Rightarrow> int \<Rightarrow> error + lcd" where
  "print s text col row =
     (case set_cursor s col row of
        Inl e \<Rightarrow> Inl e
      | Inr s1 \<Rightarrow> Inr (print_chars s1 text))"

definition backlight_on :: "lcd \<Rightarrow> lcd" where
  "backlight_on s =
     (let s1 = s\<lparr>backlight := LCD_BACKLIGHT\<rparr>
      in write_byte_bus s1 (backlight s1))"

definition backlight_off :: "lcd \<Rightarrow> lcd" where
  "backlight_off s =
     (let s1 = s\<lparr>backlight := 0x00\<rparr>
      in write_byte_bus s1 (backlight s1))"

definition init :: "int \<Rightarrow> int \<Rightarrow> lcd" where
  \<comment> \<open>\<^verbatim>\<open>LCD1602.__init__(address, bus)\<close>\<close>
  "init addr busno =
     (let s = \<lparr>address = addr, bus = busno, backlight = LCD_BACKLIGHT, trace = []\<rparr>;
          s = sleep s 50000;
          s = write_four_bits s (push_bit 4 0x03);
          s = sleep s 5000;
          s = write_four_bits s (push_bit 4 0x03);
          s = sleep s 1000;
          s = write_four_bits s (push_bit 4 0x03);
          s = write_four_bits s (push_bit 4 0x02);
          s = write_byte s (LCD_FUNCTION_SET OR LCD_2LINE OR LCD_5x8DOTS) 0;
          s = write_byte s (LCD_DISPLAY_CONTROL OR LCD_DISPLAY_ON OR
                            LCD_CURSOR_OFF OR LCD_BLINK_OFF) 0;
          s = clear s;
          s = write_byte s (LCD_ENTRY_MODE OR 0x02) 0
      in sleep s 2000)"

section \<open>Python floats\<close>

text \<open>
  A Python float is an IEEE 754 binary64 number. \<open>Finite r\<close> is the double whose exact value
  is the real \<open>r\<close> (\<open>Finite 0\<close> is \<open>+0.0\<close>); negative zero, the two infinities and NaN are
  values of their own. Arithmetic computes the exact result and rounds it to the nearest
  double, a tie going to the even mantissa, and overflows to an infinity: \<open>round64\<close> finds
  the binary exponent of its argument, takes the spacing of the doubles at that exponent
  (\<open>2 ^ (e - 52)\<close>, and \<open>2 ^ - 1074\<close> in the subnormal range), and rounds the argument to a
  multiple of that spacing.
\<close>

datatype pyfloat = Finite real | NegZero | PInf | NInf | NaN

fun is_nan :: "pyfloat \<Rightarrow> bool" where
  "is_nan NaN = True"
| "is_nan _ = False"

fun is_inf :: "pyfloat \<Rightarrow> bool" where
  "is_inf PInf = True"
| "is_inf NInf = True"
| "is_inf _ = False"

fun is_zero :: "pyfloat \<Rightarrow> bool" where
  "is_zero (Finite r) = (r = 0)"
| "is_zero NegZero = True"
| "is_zero _ = False"

fun sign_bit :: "pyfloat \<Rightarrow> bool" where
  "sign_bit (Finite r) = (r < 0)"
| "sign_bit NegZero = True"
| "sign_bit NInf = True"
| "sign_bit _ = False"

fun val :: "pyfloat \<Rightarrow> real" where
  "val (Finite r) = r"
| "val _ = 0"

definition signed_zero :: "bool \<Rightarrow> pyfloat" where
  "signed_zero neg = (if neg then NegZero else Finite 0)"

definition signed_inf :: "bool \<Rightarrow> pyfloat" where
  "signed_inf neg = (if neg then NInf else PInf)"

definition exponent :: "real \<Rightarrow> int" where
  \<comment> \<open>for \<open>0 < a\<close>, the \<open>e\<close> with \<open>2 ^ e \<le> a < 2 ^ (e + 1)\<close>\<close>
  "exponent a =
     (if 1 \<le> a then bitlen \<lfloor>a\<rfloor> - 1 else - bitlen (\<lceil>1 / a\<rceil> - 1))"

definition round_tie_even :: "int \<Rightarrow> real \<Rightarrow> int" where
  "round_tie_even f x =
     (if x - of_int f < 1/2 then f else if 1/2 < x - of_int f then f + 1
      else if even f then f else f + 1)"

definition round_half_even :: "real \<Rightarrow> int" where
  "round_half_even x = round_tie_even \<lfloor>x\<rfloor> x"

definition quantum :: "real \<Rightarrow> int" where
  "quantum a = max (exponent a - 52) (- 1074)"

definition pack :: "bool \<Rightarrow> int \<Rightarrow> int \<Rightarrow> pyfloat" where
  \<comment> \<open>the double \<open>\<plusminus> m * 2 ^ q\<close>; it overflows when \<open>m * 2 ^ q\<close> reaches \<open>2 ^ 1024\<close>\<close>
  "pack neg m q =
     (if 1024 < bitlen m + q then signed_inf neg
      else if m = 0 then signed_zero neg
      else Finite ((if neg then - 1 else 1) * (of_int m * 2 powi q)))"

definition round_to :: "real \<Rightarrow> int \<Rightarrow> pyfloat" where
  "round_to x q = pack (x < 0) (round_half_even (\<bar>x\<bar> / 2 powi q)) q"

definition round64 :: "real \<Rightarrow> pyfloat" where
  "round64 x = (if x = 0 then Finite 0 else round_to x (quantum \<bar>x\<bar>))"

fun is_double :: "pyfloat \<Rightarrow> bool" where
  \<comment> \<open>\<open>Finite r\<close> is a double when \<open>r\<close> is one of the values that rounding produces\<close>
  "is_double (Finite r) = (round64 r = Finite r)"
| "is_double _ = True"




definition ieee_div :: "pyfloat \<Rightarrow> pyfloat \<Rightarrow> pyfloat" where
  "ieee_div x y =
     (if is_nan x \<or> is_nan y then NaN
      else if is_inf x then (if is_inf y then NaN else signed_inf (sign_bit x \<noteq> sign_bit y))
      else if is_inf y then signed_zero (sign_bit x \<noteq> sign_bit y)
      else if is_zero y then (if is_zero x then NaN else signed_inf (sign_bit x \<noteq> sign_bit y))
      else if is_zero x then signed_zero (sign_bit x \<noteq> sign_bit y)
      else round64 (val x / val y))"


fun float_lt_int :: "pyfloat \<Rightarrow> int \<Rightarrow> bool" where
  \<comment> \<open>\<^verbatim>\<open>x < k\<close> for a float \<open>x\<close> and an integer \<open>k\<close>; every comparison with NaN is false\<close>
  "float_lt_int (Finite r) k = (r < of_int k)"
| "float_lt_int NegZero k = (0 < k)"
| "float_lt_int PInf k = False"
| "float_lt_int NInf k = True"
| "float_lt_int NaN k = False"

section \<open>The controller class WeighingMachine\<close>




text \<open>
  Python's format specification \<^verbatim>\<open>.Nf\<close> prints the exact value of a finite float in
  fixed-point notation with \<open>N\<close> digits after the point, rounded to the nearest such decimal,
  a tie going to the even last digit; it prints the sign of a negative zero, and \<^verbatim>\<open>inf\<close>,
  \<^verbatim>\<open>-inf\<close> and \<^verbatim>\<open>nan\<close> for the values that are not numbers.
\<close>

definition digit :: "nat \<Rightarrow> char" where
  "digit n = ''0123456789'' ! n"

fun nat_digits :: "nat \<Rightarrow> string" where
  "nat_digits n = (if n < 10 then [digit n] else nat_digits (n div 10) @ [digit (n mod 10)])"

fun frac_digits :: "nat \<Rightarrow> nat \<Rightarrow> string" where
  "frac_digits 0 n = []"
| "frac_digits (Suc d) n = frac_digits d (n div 10) @ [digit (n mod 10)]"

definition format_f :: "nat \<Rightarrow> real \<Rightarrow> string" where
  "format_f d x =
     (let m = nat (round_half_even (\<bar>x\<bar> * 10 ^ d))
      in (if x < 0 then ''-'' else []) @ nat_digits (m div 10 ^ d) @
         (if d = 0 then [] else ''.'' @ frac_digits d (m mod 10 ^ d)))"

fun format_float :: "nat \<Rightarrow> pyfloat \<Rightarrow> string" where
  "format_float d (Finite r) = format_f d r"
| "format_float d NegZero = ''-'' @ format_f d 0"
| "format_float d PInf = ''inf''"
| "format_float d NInf = ''-inf''"
| "format_float d NaN = ''nan''"

definition format_weight_display :: "pyfloat \<Rightarrow> string" where
  \<comment> \<open>the integer 0 that replaces a negative weight compares and prints as the float 0.0
      does; the divisor 1000 is not zero, so the division cannot raise\<close>
  "format_weight_display weight_grams =
     (let weight_grams = (if float_lt_int weight_grams 0 then Finite 0 else weight_grams)
      in if float_lt_int weight_grams 1000 then format_float 1 weight_grams @ ''g''
         else format_float 3 (ieee_div weight_grams (Finite 1000)) @ ''kg'')"

section \<open>Observing the bus\<close>

text \<open>
  The events one nibble write and one byte write add to the trace, the bytes among a list of
  events, and the public operations of the driver as a datatype, so that a sequence of calls
  is a list.
\<close>

definition nibble_events :: "int \<Rightarrow> int \<Rightarrow> int \<Rightarrow> event list" where
  "nibble_events a bl d =
     [Write a (d OR bl), Write a (d OR ENABLE OR bl), Sleep 100,
      Write a ((d AND NOT ENABLE) OR bl), Sleep 100]"

definition byte_events :: "int \<Rightarrow> int \<Rightarrow> int \<Rightarrow> int \<Rightarrow> event list" where
  "byte_events a bl data mode =
     nibble_events a bl (high_bits data mode) @ nibble_events a bl (low_bits data mode)"

definition writes :: "event list \<Rightarrow> int list" where
  "writes es = concat (map (\<lambda>e. case e of Write a v \<Rightarrow> [v] | Sleep t \<Rightarrow> []) es)"

definition carries :: "int \<Rightarrow> event list \<Rightarrow> bool" where
  "carries bl es = (\<forall>v \<in> set (writes es). v AND LCD_BACKLIGHT = bl)"

datatype lcd_op = Clear | SetCursor int int | Print pystr int int | BacklightOn | BacklightOff

fun call :: "lcd \<Rightarrow> lcd_op \<Rightarrow> error + lcd" where
  "call s Clear = Inr (clear s)"
| "call s (SetCursor col row) = set_cursor s col row"
| "call s (Print cs col row) = print s cs col row"
| "call s BacklightOn = Inr (backlight_on s)"
| "call s BacklightOff = Inr (backlight_off s)"

fun run :: "lcd \<Rightarrow> lcd_op list \<Rightarrow> error option \<times> lcd" where
  \<comment> \<open>calls in sequence; an exception ends the sequence and leaves the state as it was\<close>
  "run s [] = (None, s)"
| "run s (op # ops) = (case call s op of Inl e \<Rightarrow> (Some e, s) | Inr s' \<Rightarrow> run s' ops)"

fun is_toggle :: "lcd_op \<Rightarrow> bool" where
  "is_toggle BacklightOn = True"
| "is_toggle BacklightOff = True"
| "is_toggle _ = False"

section \<open>Bits, traces and rounding\<close>

lemmas lcd_consts =
  LCD_CLEAR_def LCD_HOME_def LCD_ENTRY_MODE_def LCD_DISPLAY_CONTROL_def LCD_FUNCTION_SET_def
  LCD_SET_DDRAM_def LCD_DISPLAY_ON_def LCD_CURSOR_OFF_def LCD_BLINK_OFF_def LCD_2LINE_def
  LCD_5x8DOTS_def LCD_BACKLIGHT_def ENABLE_def LCD_I2C_ADDRESS_def LCD_I2C_BUS_def

lemma and_exp_bit: "(w::int) AND 2 ^ n = (if bit w n then 2 ^ n else 0)"
  by (rule bit_eqI) (auto simp: bit_simps)

lemma and_8_bit: "(w::int) AND 8 = (if bit w 3 then 8 else 0)"
  using and_exp_bit [of w 3] by simp

lemma and_4_bit: "(w::int) AND 4 = (if bit w 2 then 4 else 0)"
  using and_exp_bit [of w 2] by simp

lemma and_not_exp: "\<not> bit (w::int) n \<Longrightarrow> w AND NOT (2 ^ n) = w"
  by (rule bit_eqI) (auto simp: bit_simps)

lemma or_and_same: "(v::int) OR (v AND w) = v"
  by (rule bit_eqI) (auto simp: bit_simps)

lemma nibble_roundtrip:
  assumes "0 \<le> b" and "b \<le> 255"
  shows "(b AND 0xF0) OR drop_bit 4 (push_bit 4 b AND 0xF0) = (b::int)"
proof -
  have tb: "take_bit 8 b = b"
    using assms by (simp add: take_bit_int_eq_self)
  have m: "(240::int) = push_bit 4 (mask 4)"
    by (simp add: mask_eq_exp_minus_1)
  have "(b AND 0xF0) OR drop_bit 4 (push_bit 4 b AND 0xF0) = take_bit 8 b"
    unfolding m by (rule bit_eqI) (auto simp: bit_simps)
  then show ?thesis using tb by simp
qed

lemma and_240_idem: "((x::int) AND 0xF0) AND 0xF0 = x AND 0xF0"
  by (simp add: and.assoc)

lemma mode_and_240: "mode = 0 \<or> mode = 1 \<Longrightarrow> (mode OR x) AND 0xF0 = (x::int) AND 0xF0"
  by (auto simp: bit.conj_disj_distrib2)

lemma ddram_field:
  assumes "0 \<le> x" and "x < 128"
  shows "(0x80 OR x) AND 0x7F = (x::int)"
proof -
  have m: "(0x7F::int) = mask 7"
    by (simp add: mask_eq_exp_minus_1)
  have "take_bit 7 x = x"
    using assms by (simp add: take_bit_int_eq_self)
  moreover have "take_bit 7 (0x80::int) = 0"
    by simp
  ultimately show ?thesis
    unfolding m by (simp flip: take_bit_eq_mask)
qed

lemma nibble_data_enable_clear:
  assumes "mode = 0 \<or> mode = 1"
  shows "high_bits data mode AND ENABLE = 0" and "low_bits data mode AND ENABLE = 0"
  using assms by (auto simp: high_bits_def low_bits_def ENABLE_def and_4_bit bit_simps)

lemma nibble_data_no_backlight:
  assumes "mode = 0 \<or> mode = 1"
  shows "high_bits data mode AND 0x08 = 0" and "low_bits data mode AND 0x08 = 0"
  using assms by (auto simp: high_bits_def low_bits_def and_8_bit bit_simps)

subsection \<open>What each operation appends to the trace\<close>

lemma write_four_bits_eq:
  "write_four_bits s d = s\<lparr>trace := trace s @ nibble_events (address s) (backlight s) d\<rparr>"
  by (simp add: write_four_bits_def pulse_enable_def write_byte_bus_def sleep_def
      nibble_events_def Let_def)

lemma write_byte_eq:
  "write_byte s data mode =
     s\<lparr>trace := trace s @ byte_events (address s) (backlight s) data mode\<rparr>"
  by (simp add: write_byte_def write_four_bits_eq byte_events_def Let_def)

lemma clear_eq:
  "clear s =
     s\<lparr>trace := trace s @ byte_events (address s) (backlight s) LCD_CLEAR 0 @ [Sleep 2000]\<rparr>"
  by (simp add: clear_def write_byte_eq sleep_def)

lemma print_chars_eq:
  "print_chars s cs =
     s\<lparr>trace := trace s @
        concat (map (\<lambda>c. byte_events (address s) (backlight s) (int c) 1) cs)\<rparr>"
  by (induction cs arbitrary: s) (simp_all add: write_byte_eq)

lemma py_index_row_offsets:
  "py_index row_offsets row =
     (if row = 0 \<or> row = -2 then Inr 0x00 else if row = 1 \<or> row = -1 then Inr 0x40
      else Inl IndexError)"
  by (auto simp: py_index_def row_offsets_def nat_eq_iff)

lemma init_fields:
  "address (init addr busno) = addr" "backlight (init addr busno) = LCD_BACKLIGHT"
  by (simp_all add: init_def Let_def write_four_bits_eq write_byte_eq clear_eq sleep_def)

subsection \<open>The backlight bit in a list of events\<close>

lemma writes_append: "writes (xs @ ys) = writes xs @ writes ys"
  by (simp add: writes_def)

lemma writes_simps:
  "writes [] = []" "writes (Write a v # es) = v # writes es" "writes (Sleep t # es) = writes es"
  by (simp_all add: writes_def)

lemma carries_append: "carries bl (xs @ ys) = (carries bl xs \<and> carries bl ys)"
  by (auto simp: carries_def writes_append)

lemma carries_sleep: "carries bl [Sleep t]" and carries_Nil: "carries bl []"
  by (simp_all add: carries_def writes_simps)

lemma carries_nibble:
  assumes "bl = 0x00 \<or> bl = LCD_BACKLIGHT" and "d AND 0x08 = 0"
  shows "carries bl (nibble_events a bl d)"
proof -
  have "\<not> bit d 3"
    using assms(2) by (simp add: and_8_bit split: if_splits)
  then show ?thesis
    using assms(1)
    by (auto simp: carries_def nibble_events_def writes_simps lcd_consts and_8_bit bit_simps)
qed

lemma carries_byte:
  assumes "bl = 0x00 \<or> bl = LCD_BACKLIGHT" and "mode = 0 \<or> mode = 1"
  shows "carries bl (byte_events a bl data mode)"
  using carries_nibble [OF assms(1) nibble_data_no_backlight(1) [OF assms(2)]]
    carries_nibble [OF assms(1) nibble_data_no_backlight(2) [OF assms(2)]]
  by (simp add: byte_events_def carries_append)

lemma carries_chars:
  "bl = 0x00 \<or> bl = LCD_BACKLIGHT \<Longrightarrow>
   carries bl (concat (map (\<lambda>c. byte_events a bl (int c) 1) cs))"
  by (induction cs) (simp_all add: carries_append carries_byte carries_Nil)

lemma call_carries:
  assumes "backlight s = 0x00 \<or> backlight s = LCD_BACKLIGHT" and "\<not> is_toggle op"
    and "call s op = Inr s'"
  shows "backlight s' = backlight s \<and> address s' = address s \<and>
         (\<exists>new. trace s' = trace s @ new \<and> carries (backlight s) new)"
proof (cases op)
  case Clear
  then show ?thesis
    using assms by (auto simp: clear_eq carries_append carries_byte carries_sleep)
next
  case (SetCursor col row)
  then show ?thesis
    using assms by (auto simp: set_cursor_def write_byte_eq carries_byte split: sum.splits)
next
  case (Print cs col row)
  then show ?thesis
    using assms
    by (auto simp: print_def set_cursor_def write_byte_eq print_chars_eq carries_append
        carries_byte carries_chars split: sum.splits)
next
  case BacklightOn
  then show ?thesis using assms(2) by simp
next
  case BacklightOff
  then show ?thesis using assms(2) by simp
qed

lemma run_carries:
  assumes "backlight s = 0x00 \<or> backlight s = LCD_BACKLIGHT"
    and "\<forall>op \<in> set ops. \<not> is_toggle op"
    and "run s ops = (r, s')"
  shows "backlight s' = backlight s \<and> address s' = address s \<and>
         (\<exists>new. trace s' = trace s @ new \<and> carries (backlight s) new)"
  using assms
proof (induction ops arbitrary: s)
  case Nil
  then show ?case by (simp add: carries_Nil)
next
  case (Cons op ops)
  show ?case
  proof (cases "call s op")
    case (Inl e)
    then show ?thesis using Cons.prems by (simp add: carries_Nil)
  next
    case (Inr s1)
    from call_carries [OF Cons.prems(1) _ Inr] Cons.prems(2)
    have 1: "backlight s1 = backlight s" "address s1 = address s"
      and "\<exists>new. trace s1 = trace s @ new \<and> carries (backlight s) new"
      by auto
    then obtain new1 where n1: "trace s1 = trace s @ new1" "carries (backlight s) new1"
      by blast
    have "run s1 ops = (r, s')"
      using Cons.prems(3) Inr by simp
    from Cons.IH [OF _ _ this] 1 Cons.prems
    have 2: "backlight s' = backlight s" "address s' = address s"
      and "\<exists>new. trace s' = trace s1 @ new \<and> carries (backlight s) new"
      by auto
    then obtain new2 where n2: "trace s' = trace s1 @ new2" "carries (backlight s) new2"
      by blast
    have "trace s' = trace s @ (new1 @ new2)"
      using n1 n2 by simp
    moreover have "carries (backlight s) (new1 @ new2)"
      using n1 n2 by (simp add: carries_append)
    ultimately show ?thesis using 2 by blast
  qed
qed

lemma nibbles_low_byte:
  "high_bits (take_bit 8 d) mode = high_bits d mode" "low_bits (take_bit 8 d) mode = low_bits d mode"
proof -
  have m: "(240::int) = push_bit 4 (mask 4)"
    by (simp add: mask_eq_exp_minus_1)
  have "take_bit 8 d AND 0xF0 = d AND 0xF0"
    unfolding m by (rule bit_eqI) (auto simp: bit_simps)
  moreover have "push_bit 4 (take_bit 8 d) AND 0xF0 = push_bit 4 d AND 0xF0"
    unfolding m by (rule bit_eqI) (auto simp: bit_simps)
  ultimately show "high_bits (take_bit 8 d) mode = high_bits d mode"
    "low_bits (take_bit 8 d) mode = low_bits d mode"
    by (simp_all add: high_bits_def low_bits_def)
qed

subsection \<open>Rounding to a double\<close>

lemma round_half_even_near: "\<bar>of_int (round_half_even x) - x\<bar> \<le> 1/2"
  unfolding round_half_even_def round_tie_even_def by (auto simp: abs_if) linarith+

lemma round_half_even_nonneg: "0 \<le> x \<Longrightarrow> 0 \<le> round_half_even x"
proof -
  assume "0 \<le> x"
  then have "0 \<le> \<lfloor>x\<rfloor>" by simp
  then show ?thesis by (auto simp: round_half_even_def round_tie_even_def)
qed

lemma exponent_ge1:
  assumes "1 \<le> x"
  shows "0 \<le> exponent x" and "2 powi exponent x \<le> x" and "x < 2 powi (exponent x + 1)"
proof -
  let ?n = "\<lfloor>x\<rfloor>"
  have n: "0 < ?n" using assms by simp
  from bitlen_bounds [OF n] have b: "2 ^ nat (bitlen ?n - 1) \<le> ?n" "?n < 2 ^ nat (bitlen ?n)"
    by auto
  have b1: "1 \<le> bitlen ?n" using n by (simp add: bitlen_alt_def)
  have e: "exponent x = bitlen ?n - 1" using assms by (simp add: exponent_def)
  show "0 \<le> exponent x" using b1 e by simp
  have "(2::real) powi exponent x = 2 ^ nat (bitlen ?n - 1)"
    using b1 e by (simp add: power_int_def)
  also have "\<dots> = of_int (2 ^ nat (bitlen ?n - 1))" by simp
  also have "\<dots> \<le> of_int ?n" using b(1) by (simp only: of_int_le_iff)
  also have "\<dots> \<le> x" by simp
  finally show "2 powi exponent x \<le> x" .
  have "?n + 1 \<le> 2 ^ nat (bitlen ?n)" using b(2) by simp
  then have "real_of_int (?n + 1) \<le> real_of_int (2 ^ nat (bitlen ?n))"
    by (simp only: of_int_le_iff)
  then have B: "real_of_int ?n + 1 \<le> 2 ^ nat (bitlen ?n)" by simp
  have A: "x < real_of_int ?n + 1" by linarith
  from A B have "x < 2 ^ nat (bitlen ?n)" by (rule less_le_trans)
  also have "\<dots> = 2 powi (exponent x + 1)"
    using b1 e by (simp add: power_int_def)
  finally show "x < 2 powi (exponent x + 1)" .
qed

lemma bitlen_le_54:
  assumes "m \<le> 2 ^ 53"
  shows "bitlen m \<le> 54"
proof -
  have "m < 2 ^ nat 54" using assms by simp
  then show ?thesis by (simp add: bitlen_le_iff_power)
qed

lemma round64_ge1:
  assumes "1 \<le> x" and "x < 2 powi E" and "E \<le> 1023"
  shows "\<exists>q. round64 x = Finite q \<and> 1 \<le> q \<and> \<bar>q - x\<bar> \<le> x / 2 ^ 53"
proof -
  define e where "e = exponent x"
  define k where "k = e - 52"
  define y where "y = x / 2 powi k"
  define m where "m = round_half_even y"
  have x0: "0 < x" "x \<noteq> 0" "\<bar>x\<bar> = x" "\<not> x < 0" using assms(1) by auto
  have e: "0 \<le> e" "2 powi e \<le> x" "x < 2 powi (e + 1)"
    unfolding e_def using exponent_ge1 [OF assms(1)] by auto
  have "\<not> E \<le> e"
  proof
    assume "E \<le> e"
    then have "(2::real) powi E \<le> 2 powi e" by (intro power_int_increasing) auto
    with e(2) assms(2) show False by linarith
  qed
  then have e_le: "e < 1023" using assms(3) by simp
  have q: "quantum \<bar>x\<bar> = k"
    using e(1) by (simp add: quantum_def k_def e_def x0)
  have pk: "(0::real) < 2 powi k" by simp
  have split: "(2::real) powi e = 2 ^ 52 * 2 powi k" "(2::real) powi (e + 1) = 2 ^ 53 * 2 powi k"
    unfolding k_def by (simp_all add: power_int_diff power_int_add)
  have y_lo: "2 ^ 52 \<le> y"
    unfolding y_def using e(2) pk by (simp add: split pos_le_divide_eq)
  have y_hi: "y < 2 ^ 53"
    unfolding y_def using e(3) pk by (simp add: split pos_divide_less_eq)
  have near: "\<bar>of_int m - y\<bar> \<le> 1/2"
    unfolding m_def by (rule round_half_even_near)
  have "of_int m \<le> y + 1/2" "y - 1/2 \<le> of_int m" using near by linarith+
  then have "real_of_int m < 2 ^ 53 + 1" "(2 ^ 52 - 1 :: real) < of_int m"
    using y_lo y_hi by linarith+
  then have "real_of_int m < of_int (2 ^ 53 + 1)" "(of_int (2 ^ 52 - 1) :: real) < of_int m"
    by simp_all
  then have m_hi: "m \<le> 2 ^ 53" and m_lo: "2 ^ 52 \<le> m"
    by (simp_all only: of_int_less_iff)
  have m0: "m \<noteq> 0" using m_lo by auto
  have "bitlen m + k \<le> 54 + (e - 52)" using bitlen_le_54 [OF m_hi] by (simp add: k_def)
  then have no_ovf: "\<not> 1024 < bitlen m + k" using e_le by simp
  have r: "round64 x = Finite (of_int m * 2 powi k)"
    using x0 q no_ovf m0 by (simp add: round64_def round_to_def pack_def m_def y_def)
  have "(2 ^ 52 :: real) \<le> of_int m" using m_lo by (metis of_int_le_iff of_int_numeral of_int_power)
  then have "(2 ^ 52 * 2 powi k :: real) \<le> of_int m * 2 powi k"
    using pk by (intro mult_right_mono) auto
  then have "(2 powi e :: real) \<le> of_int m * 2 powi k" by (simp add: split)
  moreover have "(1::real) \<le> 2 powi e" using e(1) by (simp add: one_le_power_int)
  ultimately have q1: "(1::real) \<le> of_int m * 2 powi k" by linarith
  have "of_int m * 2 powi k - x = (of_int m - y) * 2 powi k"
    unfolding y_def using pk by (simp add: field_simps)
  then have "\<bar>of_int m * 2 powi k - x\<bar> = \<bar>of_int m - y\<bar> * 2 powi k"
    using pk by (simp add: abs_mult)
  also have "\<dots> \<le> 1/2 * 2 powi k" using near pk by (simp add: mult_right_mono)
  also have "\<dots> = 2 powi e / 2 ^ 53" by (simp add: split)
  also have "\<dots> \<le> x / 2 ^ 53" using e(2) by (simp add: divide_right_mono)
  finally have err: "\<bar>of_int m * 2 powi k - x\<bar> \<le> x / 2 ^ 53" .
  from r q1 err show ?thesis by blast
qed

lemma is_double_bound:
  assumes "is_double (Finite r)" and "0 < r"
  shows "r < 2 powi 1024"
proof -
  define k where "k = quantum r"
  define m where "m = round_half_even (r / 2 powi k)"
  have r0: "r \<noteq> 0" "\<bar>r\<bar> = r" "\<not> r < 0" using assms(2) by auto
  have p: "pack False m k = Finite r"
    using assms(1) r0 by (simp add: round64_def round_to_def k_def m_def)
  have no_ovf: "\<not> 1024 < bitlen m + k"
    using p by (auto simp: pack_def signed_inf_def split: if_splits)
  have m0: "m \<noteq> 0"
    using p r0 by (auto simp: pack_def signed_zero_def signed_inf_def split: if_splits)
  have val: "r = of_int m * 2 powi k"
    using p no_ovf m0 by (simp add: pack_def)
  have "0 \<le> m"
    unfolding m_def using assms(2) by (intro round_half_even_nonneg) simp
  then have mpos: "0 < m" using m0 by simp
  from bitlen_bounds [OF mpos] have "m < 2 ^ nat (bitlen m)" by simp
  then have "real_of_int m < real_of_int (2 ^ nat (bitlen m))"
    by (simp only: of_int_less_iff)
  moreover have "0 \<le> bitlen m" by (rule bitlen_nonneg)
  ultimately have "real_of_int m < 2 powi bitlen m"
    by (simp add: power_int_def)
  then have "of_int m * 2 powi k < (2 powi bitlen m * 2 powi k :: real)"
    by (intro mult_strict_right_mono) auto
  also have "\<dots> = 2 powi (bitlen m + k)"
    by (simp add: power_int_add)
  also have "\<dots> \<le> 2 powi 1024"
    using no_ovf by (intro power_int_increasing) auto
  finally show ?thesis using val by simp
qed

lemma div_1000_finite:
  assumes "is_double (Finite r)" and "1000 \<le> r"
  shows "\<exists>q. ieee_div (Finite r) (Finite 1000) = Finite q \<and> 1 \<le> q \<and>
           \<bar>q - r / 1000\<bar> \<le> r / 1000 / 2 ^ 53"
proof -
  have "r < 2 powi 1024" using is_double_bound [OF assms(1)] assms(2) by simp
  also have "(2::real) powi 1024 = 2 * 2 powi 1023"
    using power_int_add [of "2::real" 1 1023] by simp
  finally have "r / 1000 < 2 powi 1023" by simp
  moreover have "1 \<le> r / 1000" using assms(2) by simp
  ultimately obtain q where
    "round64 (r / 1000) = Finite q" "1 \<le> q" "\<bar>q - r / 1000\<bar> \<le> r / 1000 / 2 ^ 53"
    using round64_ge1 [of "r / 1000" 1023] by auto
  moreover have "ieee_div (Finite r) (Finite 1000) = round64 (r / 1000)"
    using assms(2) by (simp add: ieee_div_def)
  ultimately show ?thesis by auto
qed

subsection \<open>Fixed-point formatting\<close>

lemma length_frac_digits: "length (frac_digits d n) = d"
  by (induction d n rule: frac_digits.induct) simp_all

lemma format_f_nonneg:
  assumes "0 \<le> x" and "0 < d"
  shows "\<exists>n::nat. \<bar>real n / 10 ^ d - x\<bar> \<le> 1 / (2 * 10 ^ d) \<and>
           format_f d x = nat_digits (n div 10 ^ d) @ ''.'' @ frac_digits d (n mod 10 ^ d)"
proof -
  define m where "m = round_half_even (x * 10 ^ d)"
  have m0: "0 \<le> m"
    unfolding m_def using assms(1) by (intro round_half_even_nonneg) simp
  have "\<bar>of_int m - x * 10 ^ d\<bar> \<le> 1/2"
    unfolding m_def by (rule round_half_even_near)
  then have "\<bar>real (nat m) - x * 10 ^ d\<bar> \<le> 1/2"
    using m0 by simp
  then have "\<bar>real (nat m) - x * 10 ^ d\<bar> / 10 ^ d \<le> (1/2) / 10 ^ d"
    by (intro divide_right_mono) simp_all
  moreover have "real (nat m) / 10 ^ d - x = (real (nat m) - x * 10 ^ d) / 10 ^ d"
    by (simp add: field_simps)
  ultimately have near: "\<bar>real (nat m) / 10 ^ d - x\<bar> \<le> 1 / (2 * 10 ^ d)"
    by (simp add: abs_divide)
  have "format_f d x = nat_digits (nat m div 10 ^ d) @ ''.'' @ frac_digits d (nat m mod 10 ^ d)"
    using assms by (simp add: format_f_def m_def Let_def del: nat_digits.simps)
  with near show ?thesis by blast
qed

lemma format_f_zero: "format_f 1 0 = ''0.0''"
  by code_simp

subsection \<open>The reading loop\<close>



section \<open>The claims\<close>

subsection \<open>Cursor addressing\<close>

text \<open>
  Claim C1. For every cursor position with \<open>col\<close> in 0..15 and \<open>row\<close> in 0..1,
  \<open>set_cursor\<close> succeeds and is the command-mode byte write of \<open>0x80 OR (row * 0x40 + col)\<close>:
  the two nibbles put on the bus are those of that byte, and the seven address bits of the
  byte are \<open>row * 0x40 + col\<close> exactly.
\<close>

theorem set_cursor_address:
  assumes "0 \<le> col" and "col \<le> 15" and "row = 0 \<or> row = 1"
  shows "set_cursor s col row = Inr (write_byte s (LCD_SET_DDRAM OR (row * 0x40 + col)) 0)
       \<and> trace (write_byte s (LCD_SET_DDRAM OR (row * 0x40 + col)) 0) =
           trace s @ byte_events (address s) (backlight s) (0x80 OR (row * 0x40 + col)) 0
       \<and> (LCD_SET_DDRAM OR (row * 0x40 + col)) AND 0x7F = row * 0x40 + col
       \<and> (LCD_SET_DDRAM OR (row * 0x40 + col)) AND 0x80 = 0x80"
proof -
  have 1: "set_cursor s col row = Inr (write_byte s (LCD_SET_DDRAM OR (row * 0x40 + col)) 0)"
    using assms(3) by (auto simp: set_cursor_def py_index_row_offsets add.commute)
  have 2: "trace (write_byte s (LCD_SET_DDRAM OR (row * 0x40 + col)) 0) =
           trace s @ byte_events (address s) (backlight s) (0x80 OR (row * 0x40 + col)) 0"
    by (simp add: write_byte_eq LCD_SET_DDRAM_def)
  have "0 \<le> row * 0x40 + col" "row * 0x40 + col < 128"
    using assms by auto
  then have 3: "(LCD_SET_DDRAM OR (row * 0x40 + col)) AND 0x7F = row * 0x40 + col"
    unfolding LCD_SET_DDRAM_def by (rule ddram_field)
  have 4: "(LCD_SET_DDRAM OR (row * 0x40 + col)) AND 0x80 = 0x80"
    using and_exp_bit [of "0x80 OR (row * 0x40 + col)" 7]
    by (simp add: LCD_SET_DDRAM_def bit_simps)
  from 1 2 3 4 show ?thesis by simp
qed

theorem set_cursor_address_witness:
  "set_cursor (init LCD_I2C_ADDRESS LCD_I2C_BUS) 5 1 =
     Inr (write_byte (init LCD_I2C_ADDRESS LCD_I2C_BUS) 0xC5 0)
   \<and> (0xC5::int) AND 0x7F = 0x45"
  using set_cursor_address [of 5 1 "init LCD_I2C_ADDRESS LCD_I2C_BUS"]
  by (simp add: LCD_SET_DDRAM_def)

subsection \<open>Splitting a byte into nibbles\<close>

text \<open>
  Claim C2. For every byte \<open>b\<close> in 0..255 the two halves that \<open>_write_byte\<close> sends, the
  high nibble \<open>b AND 0xF0\<close> and the low nibble \<open>(b << 4) AND 0xF0\<close>, lose no bit: the high
  half OR-ed with the low half shifted right by four is \<open>b\<close> again. In command mode the
  halves are sent as they are; in data mode the register-select bit is OR-ed in below the
  nibble, and the nibbles read back from the upper four bits give \<open>b\<close> in both modes.
\<close>

theorem byte_split_roundtrip:
  assumes "0 \<le> b" and "b \<le> 255"
  shows "high_bits b 0 = b AND 0xF0 \<and> low_bits b 0 = push_bit 4 b AND 0xF0
       \<and> high_bits b 0 OR drop_bit 4 (low_bits b 0) = b
       \<and> (\<forall>mode \<in> {0, 1}.
            (high_bits b mode AND 0xF0) OR drop_bit 4 (low_bits b mode AND 0xF0) = b)"
  using nibble_roundtrip [OF assms]
  by (simp add: high_bits_def low_bits_def mode_and_240 and_240_idem)

theorem byte_split_roundtrip_witness:
  "high_bits 0xA7 0 = 0xA0 \<and> low_bits 0xA7 0 = 0x70
   \<and> high_bits 0xA7 0 OR drop_bit 4 (low_bits 0xA7 0) = 0xA7
   \<and> (high_bits 0xA7 1 AND 0xF0) OR drop_bit 4 (low_bits 0xA7 1 AND 0xF0) = 0xA7"
  using byte_split_roundtrip [of "0xA7"]
  by (simp add: high_bits_def low_bits_def)

subsection \<open>The enable pulse\<close>

text \<open>
  Claim C4. A nibble write puts exactly three bytes on the bus, in this order: the data
  nibble with the enable bit low, the data nibble with the enable bit set, the data nibble
  with the enable bit low again. The backlight bit is OR-ed into each of the three. The driver
  sleeps 100 microseconds after the second write and 100 microseconds after the third, so
  both levels are held for that long. The nibbles the driver writes never have the enable bit
  in their data (\<open>nibble_data_enable_clear\<close> for the halves of a byte; the four nibbles of
  the constructor are 0x30 and 0x20), which is the first hypothesis.
\<close>

theorem write_four_bits_pulse:
  assumes "data AND ENABLE = 0" and "backlight s = 0x00 \<or> backlight s = LCD_BACKLIGHT"
  shows "trace (write_four_bits s data) =
           trace s @ [Write (address s) (data OR backlight s),
                      Write (address s) (data OR ENABLE OR backlight s), Sleep 100,
                      Write (address s) (data OR backlight s), Sleep 100]
       \<and> (data OR backlight s) AND ENABLE = 0
       \<and> (data OR ENABLE OR backlight s) AND ENABLE = ENABLE
       \<and> (data OR backlight s) OR backlight s = data OR backlight s
       \<and> (data OR ENABLE OR backlight s) OR backlight s = data OR ENABLE OR backlight s"
proof -
  have "\<not> bit data 2"
    using assms(1) by (simp add: ENABLE_def and_4_bit split: if_splits)
  then have "data AND NOT ENABLE = data"
    using and_not_exp [of data 2] by (simp add: ENABLE_def)
  then have 1: "trace (write_four_bits s data) =
           trace s @ [Write (address s) (data OR backlight s),
                      Write (address s) (data OR ENABLE OR backlight s), Sleep 100,
                      Write (address s) (data OR backlight s), Sleep 100]"
    by (simp add: write_four_bits_eq nibble_events_def)
  have 2: "(data OR backlight s) AND ENABLE = 0"
    using assms by (auto simp: bit.conj_disj_distrib2 lcd_consts)
  have 3: "(data OR ENABLE OR backlight s) AND ENABLE = ENABLE"
    by (simp add: and_4_bit bit_simps ENABLE_def)
  have 4: "(data OR backlight s) OR backlight s = data OR backlight s"
    by (simp add: or.assoc)
  have 5: "(data OR ENABLE OR backlight s) OR backlight s = data OR ENABLE OR backlight s"
    by (simp add: or.assoc)
  from 1 2 3 4 5 show ?thesis by simp
qed

theorem write_four_bits_pulse_witness:
  "trace (write_four_bits (init LCD_I2C_ADDRESS LCD_I2C_BUS) 0x30) =
     trace (init LCD_I2C_ADDRESS LCD_I2C_BUS) @
       [Write 0x27 0x38, Write 0x27 0x3C, Sleep 100, Write 0x27 0x38, Sleep 100]"
  using write_four_bits_pulse [of "0x30" "init LCD_I2C_ADDRESS LCD_I2C_BUS"]
  by (simp add: init_fields lcd_consts)

subsection \<open>Cursor positions out of range\<close>

text \<open>
  Claim C6, as stated: for every \<open>(col, row)\<close> with \<open>col > 15\<close> or \<open>row > 1\<close>,
  \<open>set_cursor\<close> signals a contract violation and never wraps the position into a DDRAM
  address. The code does not check the column: with column 64 on row 0 it raises nothing and
  sends the command byte 0xC0, the very command that column 0 on row 1 sends.
\<close>

theorem set_cursor_col_unchecked_counterexample:
  "set_cursor (init LCD_I2C_ADDRESS LCD_I2C_BUS) 64 0 =
     Inr (write_byte (init LCD_I2C_ADDRESS LCD_I2C_BUS) 0xC0 0) \<and>
   set_cursor (init LCD_I2C_ADDRESS LCD_I2C_BUS) 0 1 =
     Inr (write_byte (init LCD_I2C_ADDRESS LCD_I2C_BUS) 0xC0 0)"
  by (simp add: set_cursor_def py_index_row_offsets LCD_SET_DDRAM_def)

text \<open>
  Claim C6, amended: for every \<open>(col, row)\<close> with \<open>row > 1\<close>, \<open>set_cursor\<close> raises
  (Python's IndexError, from the lookup in \<open>row_offsets\<close>) before anything is written to the
  bus. The column is not range-checked: on row 0 or 1, every column, also one above 15, is
  accepted, and the command byte \<open>0x80 OR (col + row offset)\<close> is written.
\<close>

theorem set_cursor_row_checked:
  "(1 < row \<longrightarrow> set_cursor s col row = Inl IndexError) \<and>
   (row = 0 \<or> row = 1 \<longrightarrow>
      set_cursor s col row = Inr (write_byte s (LCD_SET_DDRAM OR (col + row * 0x40)) 0))"
  by (auto simp: set_cursor_def py_index_row_offsets)

theorem set_cursor_row_checked_witness:
  "set_cursor (init LCD_I2C_ADDRESS LCD_I2C_BUS) 3 2 = Inl IndexError \<and>
   set_cursor (init LCD_I2C_ADDRESS LCD_I2C_BUS) 16 0 =
     Inr (write_byte (init LCD_I2C_ADDRESS LCD_I2C_BUS) 0x90 0)"
  using set_cursor_row_checked [of 2 "init LCD_I2C_ADDRESS LCD_I2C_BUS" 3]
    set_cursor_row_checked [of 0 "init LCD_I2C_ADDRESS LCD_I2C_BUS" 16]
  by (simp add: LCD_SET_DDRAM_def)

subsection \<open>The backlight bit\<close>

text \<open>
  Claim C3. Take any driver state, call \<open>backlight_on\<close> or \<open>backlight_off\<close>, and then any
  sequence of \<open>clear\<close>, \<open>set_cursor\<close> and \<open>print\<close> calls. The stored backlight value stays
  what the call made it, and every byte those operations put on the bus has it OR-ed in: bit
  3 of the byte is the stored backlight bit, so no write omits it and none overturns the
  setting. (A later \<open>backlight_on\<close> or \<open>backlight_off\<close> starts the same statement afresh.)
\<close>

theorem backlight_bit_in_every_write:
  assumes "s1 = backlight_on s0 \<or> s1 = backlight_off s0"
    and "\<forall>op \<in> set ops. \<not> is_toggle op"
    and "run s1 ops = (r, s2)"
  shows "backlight s2 = backlight s1 \<and>
         (\<exists>new. trace s2 = trace s1 @ new \<and>
            (\<forall>v \<in> set (writes new).
               v AND LCD_BACKLIGHT = backlight s1 \<and> v OR backlight s1 = v))"
proof -
  have bl: "backlight s1 = 0x00 \<or> backlight s1 = LCD_BACKLIGHT"
    using assms(1) by (auto simp: backlight_on_def backlight_off_def write_byte_bus_def Let_def)
  from run_carries [OF bl assms(2,3)] obtain new where
    n: "backlight s2 = backlight s1" "trace s2 = trace s1 @ new" "carries (backlight s1) new"
    by blast
  have "v OR backlight s1 = v" if "v AND LCD_BACKLIGHT = backlight s1" for v
    using or_and_same [of v LCD_BACKLIGHT] that by simp
  then show ?thesis
    using n by (auto simp: carries_def)
qed

theorem backlight_bit_in_every_write_witness:
  "run (backlight_off (init LCD_I2C_ADDRESS LCD_I2C_BUS)) [Clear, Print [72, 105] 0 1] =
     (None, print_chars (write_byte (clear (backlight_off (init LCD_I2C_ADDRESS LCD_I2C_BUS)))
                           0xC0 0) [72, 105])
   \<and> backlight (print_chars (write_byte (clear (backlight_off
         (init LCD_I2C_ADDRESS LCD_I2C_BUS))) 0xC0 0) [72, 105]) = 0
   \<and> (\<exists>new. trace (print_chars (write_byte (clear (backlight_off
                (init LCD_I2C_ADDRESS LCD_I2C_BUS))) 0xC0 0) [72, 105]) =
              trace (backlight_off (init LCD_I2C_ADDRESS LCD_I2C_BUS)) @ new \<and>
            (\<forall>v \<in> set (writes new). v AND LCD_BACKLIGHT = 0))"
proof -
  let ?s1 = "backlight_off (init LCD_I2C_ADDRESS LCD_I2C_BUS)"
  let ?s2 = "print_chars (write_byte (clear ?s1) 0xC0 0) [72, 105]"
  have r: "run ?s1 [Clear, Print [72, 105] 0 1] = (None, ?s2)"
    by (simp add: print_def set_cursor_def py_index_row_offsets LCD_SET_DDRAM_def)
  have b: "backlight ?s1 = 0"
    by (simp add: backlight_off_def write_byte_bus_def Let_def)
  from backlight_bit_in_every_write [of ?s1 "init LCD_I2C_ADDRESS LCD_I2C_BUS"
      "[Clear, Print [72, 105] 0 1]" None ?s2] r b
  show ?thesis by simp
qed

subsection \<open>The constructor\<close>

text \<open>
  Claim C5. After the power-on wait, the constructor writes the function-set nibble 0x30
  three times: the first is followed by a sleep of 5000 microseconds (at least 4.1 ms), the
  second by a sleep of 1000 microseconds (at least 100 microseconds), the third by no sleep
  of its own; then it writes the single nibble 0x20 that selects the 4-bit interface. Only
  after these four nibbles do the byte writes (pairs of nibbles) of the configuration start.
  Each nibble is the three bus writes of the enable pulse, here with the backlight bit 0x08.
\<close>

theorem init_handshake:
  "trace (init addr busno) =
     [Sleep 50000,
      Write addr 0x38, Write addr 0x3C, Sleep 100, Write addr 0x38, Sleep 100,
      Sleep 5000,
      Write addr 0x38, Write addr 0x3C, Sleep 100, Write addr 0x38, Sleep 100,
      Sleep 1000,
      Write addr 0x38, Write addr 0x3C, Sleep 100, Write addr 0x38, Sleep 100,
      Write addr 0x28, Write addr 0x2C, Sleep 100, Write addr 0x28, Sleep 100]
     @ byte_events addr LCD_BACKLIGHT 0x28 0
     @ byte_events addr LCD_BACKLIGHT 0x0C 0
     @ byte_events addr LCD_BACKLIGHT LCD_CLEAR 0 @ [Sleep 2000]
     @ byte_events addr LCD_BACKLIGHT 0x06 0 @ [Sleep 2000]
   \<and> nibble_events addr LCD_BACKLIGHT 0x30 =
       [Write addr 0x38, Write addr 0x3C, Sleep 100, Write addr 0x38, Sleep 100]
   \<and> nibble_events addr LCD_BACKLIGHT 0x20 =
       [Write addr 0x28, Write addr 0x2C, Sleep 100, Write addr 0x28, Sleep 100]
   \<and> (4100::nat) \<le> 5000 \<and> (100::nat) \<le> 1000"
  by (simp add: init_def Let_def write_four_bits_eq write_byte_eq clear_eq sleep_def
      nibble_events_def lcd_consts)

subsection \<open>Clearing the display\<close>

text \<open>
  Claim C7. Every call of \<open>clear\<close> writes the clear-display command (the byte 0x01 in
  command mode, nibbles 0x00 and 0x10) and then sleeps 2000 microseconds, which is at least
  1.52 ms, before it returns: the sleep is the last event of the call, so whatever is written
  next comes after it. A second call straight after the first does all of it again, with its
  own sleep of 2000 microseconds.
\<close>

theorem clear_blocks:
  "trace (clear s) =
     trace s @ byte_events (address s) (backlight s) LCD_CLEAR 0 @ [Sleep 2000]
   \<and> trace (clear (clear s)) =
     trace s @ byte_events (address s) (backlight s) LCD_CLEAR 0 @ [Sleep 2000]
             @ byte_events (address s) (backlight s) LCD_CLEAR 0 @ [Sleep 2000]
   \<and> last (trace (clear s)) = Sleep 2000
   \<and> high_bits LCD_CLEAR 0 = 0x00 \<and> low_bits LCD_CLEAR 0 = 0x10
   \<and> (1520::nat) \<le> 2000"
  by (simp add: clear_eq high_bits_def low_bits_def LCD_CLEAR_def)

subsection \<open>Printing\<close>

text \<open>
  Claim C8, as stated: \<open>print\<close> fails, and transmits nothing, when the text holds a character
  outside the glyph set of the controller. The code never looks at the characters. For the
  one-character text with the euro sign (code point 0x20AC, which no 8-bit character code
  can be) \<open>print\<close> succeeds: after the cursor command 0x80 it sends, in data mode, the
  nibbles 0xA0 and 0xC0 of the low byte 0xAC.
\<close>

theorem print_unsupported_char_counterexample:
  "print (init LCD_I2C_ADDRESS LCD_I2C_BUS) [0x20AC] 0 0 =
     Inr ((init LCD_I2C_ADDRESS LCD_I2C_BUS)\<lparr>trace :=
        trace (init LCD_I2C_ADDRESS LCD_I2C_BUS) @
        [Write 0x27 0x88, Write 0x27 0x8C, Sleep 100, Write 0x27 0x88, Sleep 100,
         Write 0x27 0x08, Write 0x27 0x0C, Sleep 100, Write 0x27 0x08, Sleep 100,
         Write 0x27 0xA9, Write 0x27 0xAD, Sleep 100, Write 0x27 0xA9, Sleep 100,
         Write 0x27 0xC9, Write 0x27 0xCD, Sleep 100, Write 0x27 0xC9, Sleep 100]\<rparr>)"
  by (simp add: print_def set_cursor_def py_index_row_offsets write_byte_eq init_fields
      byte_events_def nibble_events_def high_bits_def low_bits_def lcd_consts)

text \<open>
  Claim C8, amended: \<open>print\<close> does not validate the characters of its text. On row 0 or 1
  it succeeds for every text: it sets the cursor and then, for each character in order,
  writes the two nibbles of \<open>ord(char)\<close> in data mode, which are the nibbles of the low eight
  bits of the code point. It fails only where \<open>set_cursor\<close> fails: \<open>print\<close> raises an error
  exactly when \<open>set_cursor\<close> raises that error for the same column and row, which is exactly
  when the row is outside \<open>-2..1\<close>, whatever the text; and whenever \<open>set_cursor\<close> succeeds,
  \<open>print\<close> succeeds and appends the data bytes of the text to what \<open>set_cursor\<close> wrote.
\<close>

theorem print_any_text:
  "(print s cs col row = Inl e \<longleftrightarrow> set_cursor s col row = Inl e)
   \<and> ((\<exists>e'. print s cs col row = Inl e') \<longleftrightarrow> (row < - 2 \<or> 1 < row))
   \<and> (\<forall>s1. set_cursor s col row = Inr s1 \<longrightarrow>
          print s cs col row =
            Inr (s1\<lparr>trace := trace s1 @
                   concat (map (\<lambda>c. byte_events (address s) (backlight s) (int c) 1) cs)\<rparr>))
   \<and> (row = 0 \<or> row = 1 \<longrightarrow>
          print s cs col row =
            Inr (s\<lparr>trace := trace s
                   @ byte_events (address s) (backlight s) (LCD_SET_DDRAM OR (col + row * 0x40)) 0
                   @ concat (map (\<lambda>c. byte_events (address s) (backlight s) (int c) 1) cs)\<rparr>))
   \<and> (\<forall>c \<in> set cs. byte_events (address s) (backlight s) (int c) 1 =
                      byte_events (address s) (backlight s) (int c mod 256) 1)"
proof -
  have 1: "print s cs col row = Inl e \<longleftrightarrow> set_cursor s col row = Inl e"
    by (auto simp: print_def split: sum.splits)
  have 2: "(\<exists>e'. print s cs col row = Inl e') \<longleftrightarrow> (row < - 2 \<or> 1 < row)"
    by (auto simp: print_def set_cursor_def py_index_row_offsets)
  have 3: "\<forall>s1. set_cursor s col row = Inr s1 \<longrightarrow>
          print s cs col row =
            Inr (s1\<lparr>trace := trace s1 @
                   concat (map (\<lambda>c. byte_events (address s) (backlight s) (int c) 1) cs)\<rparr>)"
    by (auto simp: print_def set_cursor_def write_byte_eq print_chars_eq split: sum.splits)
  have 4: "row = 0 \<or> row = 1 \<longrightarrow>
          print s cs col row =
            Inr (s\<lparr>trace := trace s
                   @ byte_events (address s) (backlight s) (LCD_SET_DDRAM OR (col + row * 0x40)) 0
                   @ concat (map (\<lambda>c. byte_events (address s) (backlight s) (int c) 1) cs)\<rparr>)"
    by (auto simp: print_def set_cursor_def py_index_row_offsets write_byte_eq print_chars_eq)
  have "byte_events a bl (int c) 1 = byte_events a bl (int c mod 256) 1" for a bl c
    using nibbles_low_byte [of "int c" 1] by (simp add: byte_events_def take_bit_eq_mod)
  then have 5: "\<forall>c \<in> set cs. byte_events (address s) (backlight s) (int c) 1 =
                      byte_events (address s) (backlight s) (int c mod 256) 1"
    by simp
  from 1 2 3 4 5 show ?thesis by blast
qed

theorem print_any_text_witness:
  "print (init LCD_I2C_ADDRESS LCD_I2C_BUS) [0x20AC, 72] 3 1 =
     Inr ((init LCD_I2C_ADDRESS LCD_I2C_BUS)\<lparr>trace :=
        trace (init LCD_I2C_ADDRESS LCD_I2C_BUS)
        @ byte_events 0x27 0x08 0xC3 0 @ byte_events 0x27 0x08 0x20AC 1
        @ byte_events 0x27 0x08 72 1\<rparr>)
   \<and> byte_events 0x27 0x08 0x20AC 1 = byte_events 0x27 0x08 0xAC 1
   \<and> set_cursor (init LCD_I2C_ADDRESS LCD_I2C_BUS) 3 2 = Inl IndexError
   \<and> print (init LCD_I2C_ADDRESS LCD_I2C_BUS) [0x20AC, 72] 3 2 = Inl IndexError
   \<and> print (init LCD_I2C_ADDRESS LCD_I2C_BUS) [72] 0 (- 1) =
       Inr ((write_byte (init LCD_I2C_ADDRESS LCD_I2C_BUS) 0xC0 0)\<lparr>trace :=
          trace (write_byte (init LCD_I2C_ADDRESS LCD_I2C_BUS) 0xC0 0)
          @ byte_events 0x27 0x08 72 1\<rparr>)"
proof -
  have c2: "set_cursor (init LCD_I2C_ADDRESS LCD_I2C_BUS) 3 2 = Inl IndexError"
    by (simp add: set_cursor_def py_index_row_offsets)
  have c3: "set_cursor (init LCD_I2C_ADDRESS LCD_I2C_BUS) 0 (- 1) =
              Inr (write_byte (init LCD_I2C_ADDRESS LCD_I2C_BUS) 0xC0 0)"
    by (simp add: set_cursor_def py_index_row_offsets LCD_SET_DDRAM_def)
  from print_any_text [of "init LCD_I2C_ADDRESS LCD_I2C_BUS" "[0x20AC, 72]" 3 1 IndexError]
    print_any_text [of "init LCD_I2C_ADDRESS LCD_I2C_BUS" "[0x20AC, 72]" 3 2 IndexError]
    print_any_text [of "init LCD_I2C_ADDRESS LCD_I2C_BUS" "[72]" 0 "- 1" IndexError]
    c2 c3
  show ?thesis by (simp add: init_fields lcd_consts)
qed

subsection \<open>Reading the sensors\<close>




subsection \<open>Formatting the weight\<close>

text \<open>
  Claim C10, as stated: every weight of 1000 or more is rendered in kilograms with three
  decimals and the suffix \<open>kg\<close>. A float can be infinite: positive infinity is not below
  1000, and \<open>format_weight_display\<close> returns \<open>infkg\<close> for it, which has no decimals.
\<close>

theorem format_weight_display_inf_counterexample:
  "\<not> float_lt_int PInf 1000 \<and> format_weight_display PInf = ''infkg''"
  by (simp add: format_weight_display_def ieee_div_def signed_inf_def)

text \<open>
  Claim C10, amended: \<open>format_weight_display\<close> never renders a negative weight: a weight
  below 0 (minus infinity included) gives the string \<open>0.0g\<close>. A finite weight from 0 up to,
  not including, 1000 (negative zero aside) is rendered in grams with one digit after the point
  and the suffix \<open>g\<close>; a finite weight of 1000 or more is rendered in kilograms with three
  digits after the point and the suffix \<open>kg\<close>. In both cases no sign is printed and the
  digits are those of a natural number \<open>n\<close> of tenths (thousandths) within half a unit of
  the last place of the value printed, which for kilograms is the double \<open>q\<close> nearest to
  the weight divided by 1000. Positive infinity and NaN are not rendered as decimals: they
  give \<open>infkg\<close> and \<open>nankg\<close>.
\<close>

theorem format_weight_display_cases:
  "(float_lt_int w 0 \<longrightarrow> format_weight_display w = ''0.0g'') \<and>
   (0 \<le> r \<and> r < 1000 \<longrightarrow>
      (\<exists>n::nat. \<bar>real n / 10 - r\<bar> \<le> 1 / 20 \<and>
         format_weight_display (Finite r) =
           nat_digits (n div 10) @ ''.'' @ [digit (n mod 10)] @ ''g'')) \<and>
   (is_double (Finite r) \<and> 1000 \<le> r \<longrightarrow>
      (\<exists>q (n::nat). ieee_div (Finite r) (Finite 1000) = Finite q \<and> 1 \<le> q \<and>
         \<bar>q - r / 1000\<bar> \<le> r / 1000 / 2 ^ 53 \<and>
         \<bar>real n / 1000 - q\<bar> \<le> 1 / 2000 \<and>
         length (frac_digits 3 (n mod 1000)) = 3 \<and>
         format_weight_display (Finite r) =
           nat_digits (n div 1000) @ ''.'' @ frac_digits 3 (n mod 1000) @ ''kg'')) \<and>
   format_weight_display PInf = ''infkg'' \<and>
   format_weight_display NaN = ''nankg''"
proof (intro conjI impI)
  assume "float_lt_int w 0"
  then have "format_weight_display w = format_f 1 0 @ ''g''"
    by (simp add: format_weight_display_def)
  also have "format_f 1 0 = ''0.0''"
    by (rule format_f_zero)
  finally show "format_weight_display w = ''0.0g''"
    by simp
next
  assume a: "0 \<le> r \<and> r < 1000"
  from format_f_nonneg [of r 1] a obtain n :: nat where
    n: "\<bar>real n / 10 - r\<bar> \<le> 1 / 20"
      "format_f 1 r = nat_digits (n div 10) @ ''.'' @ frac_digits 1 (n mod 10)"
    by auto
  have "format_weight_display (Finite r) = format_f 1 r @ ''g''"
    using a by (simp add: format_weight_display_def)
  with n show "\<exists>n::nat. \<bar>real n / 10 - r\<bar> \<le> 1 / 20 \<and>
         format_weight_display (Finite r) =
           nat_digits (n div 10) @ ''.'' @ [digit (n mod 10)] @ ''g''"
    by (intro exI [of _ n]) (simp del: nat_digits.simps)
next
  assume a: "is_double (Finite r) \<and> 1000 \<le> r"
  from div_1000_finite [of r] a obtain q where
    q: "ieee_div (Finite r) (Finite 1000) = Finite q" "1 \<le> q"
      "\<bar>q - r / 1000\<bar> \<le> r / 1000 / 2 ^ 53"
    by blast
  from format_f_nonneg [of q 3] q(2) obtain n :: nat where
    n: "\<bar>real n / 1000 - q\<bar> \<le> 1 / 2000"
      "format_f 3 q = nat_digits (n div 1000) @ ''.'' @ frac_digits 3 (n mod 1000)"
    by auto
  have "format_weight_display (Finite r) = format_f 3 q @ ''kg''"
    using a q(1) by (simp add: format_weight_display_def)
  with n q show "\<exists>q (n::nat). ieee_div (Finite r) (Finite 1000) = Finite q \<and> 1 \<le> q \<and>
         \<bar>q - r / 1000\<bar> \<le> r / 1000 / 2 ^ 53 \<and>
         \<bar>real n / 1000 - q\<bar> \<le> 1 / 2000 \<and>
         length (frac_digits 3 (n mod 1000)) = 3 \<and>
         format_weight_display (Finite r) =
           nat_digits (n div 1000) @ ''.'' @ frac_digits 3 (n mod 1000) @ ''kg''"
    by (intro exI [of _ q] exI [of _ n])
      (simp add: length_frac_digits del: nat_digits.simps frac_digits.simps)
next
  show "format_weight_display PInf = ''infkg''"
    by (simp add: format_weight_display_def ieee_div_def signed_inf_def)
next
  show "format_weight_display NaN = ''nankg''"
    by (simp add: format_weight_display_def ieee_div_def)
qed

theorem format_weight_display_cases_witness:
  "format_weight_display (Finite (- 5)) = ''0.0g'' \<and>
   format_weight_display NInf = ''0.0g'' \<and>
   format_weight_display (Finite 12.25) = ''12.2g'' \<and>
   (\<exists>n::nat. \<bar>real n / 10 - 12.25\<bar> \<le> 1 / 20 \<and>
      format_weight_display (Finite 12.25) =
        nat_digits (n div 10) @ ''.'' @ [digit (n mod 10)] @ ''g'') \<and>
   is_double (Finite 1063.5) \<and>
   format_weight_display (Finite 1063.5) = ''1.063kg'' \<and>
   (\<exists>q (n::nat). ieee_div (Finite 1063.5) (Finite 1000) = Finite q \<and> 1 \<le> q \<and>
      \<bar>q - 1063.5 / 1000\<bar> \<le> 1063.5 / 1000 / 2 ^ 53 \<and>
      \<bar>real n / 1000 - q\<bar> \<le> 1 / 2000 \<and>
      length (frac_digits 3 (n mod 1000)) = 3 \<and>
      format_weight_display (Finite 1063.5) =
        nat_digits (n div 1000) @ ''.'' @ frac_digits 3 (n mod 1000) @ ''kg'')"
proof -
  have d: "is_double (Finite 1063.5)"
    by code_simp
  have e: "format_weight_display (Finite 12.25) = ''12.2g''"
    "format_weight_display (Finite 1063.5) = ''1.063kg''"
    by code_simp+
  from format_weight_display_cases [of "Finite (- 5)" "12.25"]
    format_weight_display_cases [of NInf "1063.5"] d e
  show ?thesis by simp
qed

end
